theory Spec2Isabelle
  imports Complex_Main "HOL-Library.Word"
begin

section \<open>Machine integers and Qt value types\<close>

text \<open>
  A C++ \<open>int\<close> is a 32-bit two's complement value: \<open>cint\<close> is read with \<open>sint\<close>,
  its \<open>+\<close> and \<open>-\<close> wrap around, and comparisons are the signed ones. A \<open>qreal\<close>
  (\<open>double\<close>) is modelled by \<open>real\<close>: the arithmetic is exact, there is no rounding,
  no infinity and no NaN.
\<close>

type_synonym cint = "32 word"

definition to_double :: "cint \<Rightarrow> real" where
  "to_double k = real_of_int (sint k)"

text \<open>\<open>qMin(a, b)\<close> is \<open>(a < b) ? a : b\<close> and \<open>qMax(a, b)\<close> is \<open>(a < b) ? b : a\<close>.\<close>

definition qMin_int :: "cint \<Rightarrow> cint \<Rightarrow> cint" where
  "qMin_int a b = (if a <s b then a else b)"

definition qMax_int :: "cint \<Rightarrow> cint \<Rightarrow> cint" where
  "qMax_int a b = (if a <s b then b else a)"

definition qMin_real :: "real \<Rightarrow> real \<Rightarrow> real" where
  "qMin_real a b = (if a < b then a else b)"

definition qMax_real :: "real \<Rightarrow> real \<Rightarrow> real" where
  "qMax_real a b = (if a < b then b else a)"

text \<open>
  \<open>1 << zoom\<close>. C++ defines the shift for \<open>0 \<le> zoom \<le> 30\<close> only; there the value
  is \<open>2 ^ zoom\<close>. Outside that range the shift count is taken modulo 32, as the shift
  instruction does: \<open>1 << 31\<close> is the sign bit and \<open>1 << 32\<close> is 1.
\<close>

definition shl1 :: "cint \<Rightarrow> cint" where
  "shl1 z = push_bit (unat z mod 32) 1"

record QPointF =
  px :: real
  py :: real

record QPoint =
  ix :: cint
  iy :: cint

record QSize =
  size_width :: cint
  size_height :: cint

record QSizeF =
  sw :: real
  sh :: real

record QRectF =
  rx :: real
  ry :: real
  rw :: real
  rh :: real

text \<open>\<open>QRectF(topLeft, bottomRight)\<close> stores the corner and the two differences.\<close>

definition QRectF_corners :: "QPointF \<Rightarrow> QPointF \<Rightarrow> QRectF" where
  "QRectF_corners p q = \<lparr>rx = px p, ry = py p, rw = px q - px p, rh = py q - py p\<rparr>"

definition rect_left :: "QRectF \<Rightarrow> real" where
  "rect_left r = rx r"

definition rect_top :: "QRectF \<Rightarrow> real" where
  "rect_top r = ry r"

definition rect_right :: "QRectF \<Rightarrow> real" where
  "rect_right r = rx r + rw r"

definition rect_bottom :: "QRectF \<Rightarrow> real" where
  "rect_bottom r = ry r + rh r"

definition QPointF_mul :: "QPointF \<Rightarrow> real \<Rightarrow> QPointF" where
  "QPointF_mul p c = \<lparr>px = px p * c, py = py p * c\<rparr>"

definition QPointF_div :: "QPointF \<Rightarrow> real \<Rightarrow> QPointF" where
  "QPointF_div p c = \<lparr>px = px p / c, py = py p / c\<rparr>"

text \<open>\<open>QString::number(int)\<close>: the decimal digits, with a minus sign below zero.\<close>

function number_nat :: "nat \<Rightarrow> string" where
  "number_nat n =
     (if n < 10 then [char_of (48 + n)]
      else number_nat (n div 10) @ [char_of (48 + n mod 10)])"
  by pat_completeness auto
termination
  by (relation "measure id") auto

definition number :: "cint \<Rightarrow> string" where
  "number k =
     (if sint k < 0 then CHR ''-'' # number_nat (nat (- sint k))
      else number_nat (nat (sint k)))"

section \<open>Types of the repository that the file includes\<close>

text \<open>
  Modelled from the spec: \<open>Coordinates\<close>, \<open>RectC\<close> and \<open>Range\<close> (common/*.h, not among
  the sources). A coordinate is a longitude and a latitude in degrees; GeoBounds is
  "two corner coordinates: top-left, bottom-right"; ZoomRange is an "inclusive integer
  interval [min, max]" whose invariant is \<open>min \<le> max\<close>, which is what \<open>isValid\<close> tests.
\<close>

record Coordinates =
  lon :: real
  lat :: real

record RectC =
  topLeft :: Coordinates
  bottomRight :: Coordinates

record Range =
  range_min :: cint
  range_max :: cint

definition Range_isValid :: "Range \<Rightarrow> bool" where
  "Range_isValid r = (range_min r \<le>s range_max r)"

text \<open>
  Modelled from the spec: the macro \<open>rad2deg\<close> (common/coordinates.h, not among the
  sources), radians to degrees, as the formula \<open>lon = -180 + 360 * index / 2^zoom\<close> of
  the tile-index conversion needs it.
\<close>

definition rad2deg :: "real \<Rightarrow> real" where
  "rad2deg r = r * 180 / pi"

definition deg2rad :: "real \<Rightarrow> real" where
  "deg2rad d = d * pi / 180"

text \<open>
  The rest of what the file calls and does not define is a parameter: the functions of
  osm.h, \<open>TILE_SIZE\<close> of config.h, \<open>RectC::isValid\<close>, the image decoder behind
  \<open>QPixmap::loadFromData\<close> (\<open>None\<close> when the data does not decode) and the build flag
  \<open>ENABLE_HIDPI\<close>. \<open>scale2zoom\<close> is taken with the \<open>int\<close> that \<open>limitZoom\<close> receives.
\<close>

type_synonym QByteArray = string
type_synonym QPixmap = string

record ext =
  ll2m :: "Coordinates \<Rightarrow> QPointF"
  m2ll :: "QPointF \<Rightarrow> Coordinates"
  zoom2scale :: "cint \<Rightarrow> real"
  scale2zoom :: "real \<Rightarrow> cint"
  mercator2tile :: "QPointF \<Rightarrow> cint \<Rightarrow> QPoint"
  TILE_SIZE :: real
  rectc_isValid :: "RectC \<Rightarrow> bool"
  loadFromData :: "QByteArray \<Rightarrow> QPixmap option"
  ENABLE_HIDPI :: bool

section \<open>The database connection\<close>

text \<open>
  \<open>QSqlDatabase\<close> as the constructor and \<open>tileData\<close> observe it: whether \<open>open()\<close>
  succeeds, whether the connection is open, the record of the table \<open>tiles\<close>, and the
  answers to the three queries. \<open>zoom_query\<close> is \<open>None\<close> when \<open>query.first()\<close> is false,
  otherwise the two values after \<open>toInt()\<close>; \<open>extrema_query z\<close> gives the four values
  of the second query after \<open>toInt()\<close>, whose \<open>first()\<close> the code does not test;
  \<open>tile_query zoom x y\<close> is the blob of the first row, if any.
\<close>

datatype QMetaType = UnknownType | MetaInt | MetaDouble | MetaQString | MetaQByteArray

record QSqlField =
  field_name :: string
  field_type :: QMetaType

record QSqlDatabase =
  opens :: bool
  isOpen :: bool
  tiles_record :: "QSqlField list"
  zoom_query :: "(cint \<times> cint) option"
  extrema_query :: "cint \<Rightarrow> cint \<times> cint \<times> cint \<times> cint"
  tile_query :: "cint \<Rightarrow> cint \<Rightarrow> cint \<Rightarrow> QByteArray option"

text \<open>\<open>QSqlRecord::field(i)\<close>: an empty field when there is no column \<open>i\<close>.\<close>

definition field :: "QSqlField list \<Rightarrow> nat \<Rightarrow> QSqlField" where
  "field r i = (if i < length r then r ! i else \<lparr>field_name = [], field_type = UnknownType\<rparr>)"

subsection \<open>An SQLite file behind the connection\<close>

text \<open>
  The rows of the table \<open>tiles\<close> and what SQLite answers to the query texts of the
  constructor. \<open>SELECT min(c), max(c) FROM tiles\<close> is an aggregate without
  \<open>GROUP BY\<close>: it yields exactly one row, whose values are NULL when no row is
  selected, and \<open>QVariant::toInt()\<close> of NULL is 0; an integer of SQLite is cut to the
  32 bits of an \<open>int\<close>.
\<close>

record tile =
  zoom_level :: int
  tile_column :: int
  tile_row :: int
  tile_data :: QByteArray

definition sql_min :: "int list \<Rightarrow> int option" where
  "sql_min ks = (case ks of [] \<Rightarrow> None | k # r \<Rightarrow> Some (fold min r k))"

definition sql_max :: "int list \<Rightarrow> int option" where
  "sql_max ks = (case ks of [] \<Rightarrow> None | k # r \<Rightarrow> Some (fold max r k))"

definition toInt :: "int option \<Rightarrow> cint" where
  "toInt v = (case v of None \<Rightarrow> 0 | Some k \<Rightarrow> word_of_int k)"

definition sqlite :: "QSqlField list \<Rightarrow> tile list \<Rightarrow> QSqlDatabase" where
  "sqlite columns rows =
     \<lparr>opens = True, isOpen = False, tiles_record = columns,
      zoom_query = Some (toInt (sql_min (map zoom_level rows)),
                         toInt (sql_max (map zoom_level rows))),
      extrema_query = (\<lambda>z. let zs = filter (\<lambda>t. zoom_level t = sint z) rows in
         (toInt (sql_min (map tile_column zs)), toInt (sql_min (map tile_row zs)),
          toInt (sql_max (map tile_column zs)), toInt (sql_max (map tile_row zs)))),
      tile_query = (\<lambda>z c r. map_option tile_data
         (find (\<lambda>t. zoom_level t = sint z \<and> tile_column t = sint c \<and> tile_row t = sint r)
            rows))\<rparr>"

section \<open>MBTilesMap\<close>

record MBTilesMap =
  db :: QSqlDatabase
  fileName :: string
  zooms :: Range
  geoBounds :: RectC
  zoom :: cint
  deviceRatio :: real
  tileRatio :: real
  valid :: bool
  errorString :: string

definition index2mercator :: "cint \<Rightarrow> cint \<Rightarrow> real" where
  "index2mercator index z =
     rad2deg (- pi + 2 * pi * (to_double index / to_double (shl1 z)))"

text \<open>
  The constructor. \<open>blank\<close> holds the members as default construction leaves them; the
  initialiser list sets the file name, both ratios and the validity flag, the error
  string starts empty, and \<open>_zoom\<close> is assigned on the successful path only.
\<close>

definition construct :: "ext \<Rightarrow> MBTilesMap \<Rightarrow> string \<Rightarrow> QSqlDatabase \<Rightarrow> MBTilesMap" where
  "construct E blank file database =
     (let m = blank\<lparr>db := database\<lparr>isOpen := opens database\<rparr>, fileName := file,
                deviceRatio := 1, tileRatio := 1, valid := False, errorString := []\<rparr>;
          r = tiles_record database
      in
      if \<not> opens database then
        m\<lparr>errorString := file @ '': Error opening database file''\<rparr>
      else if r = []
        \<or> field_name (field r 0) \<noteq> ''zoom_level'' \<or> field_type (field r 0) \<noteq> MetaInt
        \<or> field_name (field r 1) \<noteq> ''tile_column'' \<or> field_type (field r 1) \<noteq> MetaInt
        \<or> field_name (field r 2) \<noteq> ''tile_row'' \<or> field_type (field r 2) \<noteq> MetaInt
        \<or> field_name (field r 3) \<noteq> ''tile_data'' \<or> field_type (field r 3) \<noteq> MetaQByteArray
      then m\<lparr>errorString := ''Invalid table format''\<rparr>
      else
        (case zoom_query database of
           None \<Rightarrow> m\<lparr>errorString := ''Empty tile set''\<rparr>
         | Some (lo, hi) \<Rightarrow>
             let m1 = m\<lparr>zooms := \<lparr>range_min = lo, range_max = hi\<rparr>\<rparr> in
             if lo <s 0 \<or> \<not> Range_isValid (zooms m1) then
               m1\<lparr>errorString := ''Invalid zoom levels''\<rparr>
             else
               (case extrema_query database lo of (c0, r0, c1, r1) \<Rightarrow>
                  let minX = index2mercator (qMin_int (shl1 lo - 1) (qMax_int 0 c0)) lo;
                      minY = index2mercator (qMin_int (shl1 lo - 1) (qMax_int 0 r0)) lo;
                      maxX = index2mercator (qMin_int (shl1 lo - 1) (qMax_int 0 c1) + 1) lo;
                      maxY = index2mercator (qMin_int (shl1 lo - 1) (qMax_int 0 r1) + 1) lo;
                      tl = m2ll E \<lparr>px = minX, py = maxY\<rparr>;
                      br = m2ll E \<lparr>px = maxX, py = minY\<rparr>;
                      tl' = tl\<lparr>lat := qMin_real (lat tl) 85.0511\<rparr>;
                      br' = br\<lparr>lat := qMax_real (lat br) (- 85.0511)\<rparr>
                  in m1\<lparr>zoom := hi, geoBounds := \<lparr>topLeft = tl', bottomRight = br'\<rparr>,
                        db := (db m1)\<lparr>isOpen := False\<rparr>, valid := True\<rparr>)))"

definition load :: "MBTilesMap \<Rightarrow> MBTilesMap" where
  "load m = m\<lparr>db := (db m)\<lparr>isOpen := opens (db m)\<rparr>\<rparr>"

definition unload :: "MBTilesMap \<Rightarrow> MBTilesMap" where
  "unload m = m\<lparr>db := (db m)\<lparr>isOpen := False\<rparr>\<rparr>"

definition limitZoom :: "MBTilesMap \<Rightarrow> cint \<Rightarrow> cint" where
  "limitZoom m z =
     (if z <s range_min (zooms m) then range_min (zooms m)
      else if range_max (zooms m) <s z then range_max (zooms m)
      else z)"

definition coordinatesRatio :: "MBTilesMap \<Rightarrow> real" where
  "coordinatesRatio m = (if 1 < deviceRatio m then deviceRatio m / tileRatio m else 1)"

definition imageRatio :: "MBTilesMap \<Rightarrow> real" where
  "imageRatio m = (if 1 < deviceRatio m then deviceRatio m else tileRatio m)"

definition tileSize :: "ext \<Rightarrow> MBTilesMap \<Rightarrow> real" where
  "tileSize E m = TILE_SIZE E / coordinatesRatio m"

text \<open>The mutating members return the new zoom and the map.\<close>

definition zoomFit :: "ext \<Rightarrow> QSize \<Rightarrow> RectC \<Rightarrow> MBTilesMap \<Rightarrow> cint \<times> MBTilesMap" where
  "zoomFit E vsize rect m =
     (let m' =
        (if \<not> rectc_isValid E rect then m\<lparr>zoom := range_max (zooms m)\<rparr>
         else
           let tbr = QRectF_corners (ll2m E (topLeft rect)) (ll2m E (bottomRight rect));
               sc = \<lparr>px = rw tbr / to_double (size_width vsize),
                     py = rh tbr / to_double (size_height vsize)\<rparr>
           in m\<lparr>zoom := limitZoom m
                  (scale2zoom E (qMax_real (px sc) (- py sc) / coordinatesRatio m))\<rparr>)
      in (zoom m', m'))"

definition zoomIn :: "MBTilesMap \<Rightarrow> cint \<times> MBTilesMap" where
  "zoomIn m =
     (let m' = m\<lparr>zoom := qMin_int (zoom m + 1) (range_max (zooms m))\<rparr> in (zoom m', m'))"

definition zoomOut :: "MBTilesMap \<Rightarrow> cint \<times> MBTilesMap" where
  "zoomOut m =
     (let m' = m\<lparr>zoom := qMax_int (zoom m - 1) (range_min (zooms m))\<rparr> in (zoom m', m'))"

definition ll2xy :: "ext \<Rightarrow> MBTilesMap \<Rightarrow> Coordinates \<Rightarrow> QPointF" where
  "ll2xy E m c =
     (let scale = zoom2scale E (zoom m); p = ll2m E c
      in QPointF_div \<lparr>px = px p / scale, py = py p / - scale\<rparr> (coordinatesRatio m))"

definition xy2ll :: "ext \<Rightarrow> MBTilesMap \<Rightarrow> QPointF \<Rightarrow> Coordinates" where
  "xy2ll E m p =
     (let scale = zoom2scale E (zoom m)
      in m2ll E (QPointF_mul \<lparr>px = px p * scale, py = - py p * scale\<rparr> (coordinatesRatio m)))"

definition bounds :: "ext \<Rightarrow> MBTilesMap \<Rightarrow> QRectF" where
  "bounds E m =
     QRectF_corners (ll2xy E m (topLeft (geoBounds m))) (ll2xy E m (bottomRight (geoBounds m)))"

text \<open>The row bound to \<open>:y\<close> in \<open>tileData\<close>.\<close>

definition storageRow :: "cint \<Rightarrow> cint \<Rightarrow> cint" where
  "storageRow z y = shl1 z - y - 1"

text \<open>A query on a closed connection does not execute, and an empty array is returned.\<close>

definition tileData :: "MBTilesMap \<Rightarrow> cint \<Rightarrow> QPoint \<Rightarrow> QByteArray" where
  "tileData m z t =
     (if isOpen (db m) then
        (case tile_query (db m) z (ix t) (storageRow z (iy t)) of
           Some d \<Rightarrow> d
         | None \<Rightarrow> [])
      else [])"

section \<open>Drawing\<close>

text \<open>
  What \<open>draw\<close> does to the world outside the map is recorded as a list of events, in
  order: a lookup in \<open>QPixmapCache\<close>, a call of \<open>tileData\<close>, an insertion into the
  cache, a \<open>drawPixmap\<close> on the painter (with the device pixel ratio the pixmap was
  tagged with, under \<open>ENABLE_HIDPI\<close>). The cache itself is a map from keys to pixmaps.
\<close>

datatype event =
  CacheFind string
  | TileFetch cint QPoint
  | CacheInsert string
  | DrawPixmap QPointF QPixmap "real option"

record draw_state =
  cache :: "string \<rightharpoonup> QPixmap"
  events :: "event list"

text \<open>The body of the inner loop, for the tile at offset \<open>(i, j)\<close>.\<close>

definition draw_tile ::
  "ext \<Rightarrow> MBTilesMap \<Rightarrow> QPoint \<Rightarrow> QPointF \<Rightarrow> QRectF \<Rightarrow> int \<Rightarrow> int \<Rightarrow> draw_state \<Rightarrow> draw_state" where
  "draw_tile E m tile tl0 b i j st =
     (let t = \<lparr>ix = ix tile + word_of_int i, iy = iy tile + word_of_int j\<rparr>;
          key = fileName m @ ''-'' @ number (zoom m) @ ''_'' @ number (ix t)
                @ ''_'' @ number (iy t);
          found = cache st key;
          st1 = st\<lparr>events := events st @ [CacheFind key]\<rparr>;
          (pm, st2) =
            (case found of
               Some p \<Rightarrow> (Some p, st1)
             | None \<Rightarrow>
                 (let st' = st1\<lparr>events := events st1 @ [TileFetch (zoom m) t]\<rparr> in
                  case loadFromData E (tileData m (zoom m) t) of
                    Some p \<Rightarrow> (Some p, st'\<lparr>cache := (cache st')(key \<mapsto> p),
                                              events := events st' @ [CacheInsert key]\<rparr>)
                  | None \<Rightarrow> (None, st')));
          tp = \<lparr>px = qMax_real (px tl0) (rect_left b)
                      + to_double (ix t - ix tile) * tileSize E m,
                py = qMax_real (py tl0) (rect_top b)
                      + to_double (iy t - iy tile) * tileSize E m\<rparr>
      in case pm of
           None \<Rightarrow> st2
         | Some p \<Rightarrow>
             st2\<lparr>events := events st2
               @ [DrawPixmap tp p (if ENABLE_HIDPI E then Some (imageRatio m) else None)]\<rparr>)"

text \<open>
  The two \<open>for\<close> loops. The counters start at 0 and count up to the ceiling of a
  quotient that does not change during the loop; they are \<open>int\<close> positions here and
  are cut to 32 bits where the code adds them to the tile index.
\<close>

function loop_j ::
  "ext \<Rightarrow> MBTilesMap \<Rightarrow> QPoint \<Rightarrow> QPointF \<Rightarrow> QRectF \<Rightarrow> QSizeF \<Rightarrow> int \<Rightarrow> int \<Rightarrow> draw_state \<Rightarrow> draw_state" where
  "loop_j E m tile tl0 b s i j st =
     (if real_of_int j < real_of_int \<lceil>sh s / tileSize E m\<rceil>
      then loop_j E m tile tl0 b s i (j + 1) (draw_tile E m tile tl0 b i j st)
      else st)"
  by pat_completeness auto
termination
  by (relation "measure (\<lambda>(E, m, tile, tl0, b, s, i, j, st). nat (\<lceil>sh s / tileSize E m\<rceil> - j))")
    auto

function loop_i ::
  "ext \<Rightarrow> MBTilesMap \<Rightarrow> QPoint \<Rightarrow> QPointF \<Rightarrow> QRectF \<Rightarrow> QSizeF \<Rightarrow> int \<Rightarrow> draw_state \<Rightarrow> draw_state" where
  "loop_i E m tile tl0 b s i st =
     (if real_of_int i < real_of_int \<lceil>sw s / tileSize E m\<rceil>
      then loop_i E m tile tl0 b s (i + 1) (loop_j E m tile tl0 b s i 0 st)
      else st)"
  by pat_completeness auto
termination
  by (relation "measure (\<lambda>(E, m, tile, tl0, b, s, i, st). nat (\<lceil>sw s / tileSize E m\<rceil> - i))")
    auto

declare loop_j.simps [simp del] loop_i.simps [simp del]

text \<open>The origin \<open>tl\<close> and the extent \<open>s\<close> that bounds the two loops.\<close>

definition draw_origin :: "ext \<Rightarrow> MBTilesMap \<Rightarrow> QRectF \<Rightarrow> QPointF" where
  "draw_origin E m rect =
     \<lparr>px = real_of_int \<lfloor>rect_left rect / tileSize E m\<rfloor> * tileSize E m,
      py = real_of_int \<lfloor>rect_top rect / tileSize E m\<rfloor> * tileSize E m\<rparr>"

definition draw_extent :: "ext \<Rightarrow> MBTilesMap \<Rightarrow> QRectF \<Rightarrow> QSizeF" where
  "draw_extent E m rect =
     (let b = bounds E m; tl0 = draw_origin E m rect
      in \<lparr>sw = qMin_real (rect_right rect - px tl0) (rw b),
          sh = qMin_real (rect_bottom rect - py tl0) (rh b)\<rparr>)"

definition draw :: "ext \<Rightarrow> MBTilesMap \<Rightarrow> QRectF \<Rightarrow> draw_state \<Rightarrow> draw_state" where
  "draw E m rect st =
     (let scale = zoom2scale E (zoom m);
          b = bounds E m;
          tile = mercator2tile E
            (QPointF_mul \<lparr>px = rx rect * scale, py = - ry rect * scale\<rparr> (coordinatesRatio m))
            (zoom m);
          tl0 = draw_origin E m rect;
          s = draw_extent E m rect
      in loop_i E m tile tl0 b s 0 st)"

section \<open>The statements to compare the code with\<close>

text \<open>The zoom that \<open>zoomFit\<close> is specified to set and return.\<close>

definition zoomFit_spec :: "ext \<Rightarrow> MBTilesMap \<Rightarrow> QSize \<Rightarrow> RectC \<Rightarrow> cint" where
  "zoomFit_spec E m vsize geoRect =
     (let projectedWidth = px (ll2m E (bottomRight geoRect)) - px (ll2m E (topLeft geoRect));
          projectedHeight = py (ll2m E (bottomRight geoRect)) - py (ll2m E (topLeft geoRect));
          viewportWidth = real_of_int (sint (size_width vsize));
          viewportHeight = real_of_int (sint (size_height vsize))
      in if rectc_isValid E geoRect then
           limitZoom m (scale2zoom E
             (max (projectedWidth / viewportWidth) (- projectedHeight / viewportHeight)
                / coordinatesRatio m))
         else range_max (zooms m))"

text \<open>CurrentZoom lies in ZoomRange.\<close>

definition zoom_in_range :: "MBTilesMap \<Rightarrow> bool" where
  "zoom_in_range m = (range_min (zooms m) \<le>s zoom m \<and> zoom m \<le>s range_max (zooms m))"

text \<open>The operations that assign \<open>_zoom\<close> after construction.\<close>

datatype mutation = ZoomIn | ZoomOut | ZoomFit QSize RectC

fun mutate :: "ext \<Rightarrow> MBTilesMap \<Rightarrow> mutation \<Rightarrow> MBTilesMap" where
  "mutate E m ZoomIn = snd (zoomIn m)"
| "mutate E m ZoomOut = snd (zoomOut m)"
| "mutate E m (ZoomFit vsize rect) = snd (zoomFit E vsize rect m)"

text \<open>A viewport that has no point in common with the projected bounds.\<close>

definition viewport_outside :: "QRectF \<Rightarrow> QRectF \<Rightarrow> bool" where
  "viewport_outside rect b =
     (rect_right rect \<le> rect_left b \<or> rect_right b \<le> rect_left rect
      \<or> rect_bottom rect \<le> rect_top b \<or> rect_bottom b \<le> rect_top rect)"

text \<open>The table has the four required columns, with their names and types.\<close>

definition has_required_columns :: "QSqlField list \<Rightarrow> bool" where
  "has_required_columns r =
     (\<lparr>field_name = ''zoom_level'', field_type = MetaInt\<rparr> \<in> set r
      \<and> \<lparr>field_name = ''tile_column'', field_type = MetaInt\<rparr> \<in> set r
      \<and> \<lparr>field_name = ''tile_row'', field_type = MetaInt\<rparr> \<in> set r
      \<and> \<lparr>field_name = ''tile_data'', field_type = MetaQByteArray\<rparr> \<in> set r)"

section \<open>A concrete setting\<close>

text \<open>
  Modelled from the spec: the functions of osm.h (not among the sources). The planar
  coordinates are degrees, the world spanning \<open>-180 .. 180\<close> in both axes as in
  \<open>index2mercator\<close>: the standard spherical Mercator pair, a scale under which the world
  spans \<open>tileSize * 2^z\<close> pixels and its base-2 logarithmic inverse, and the tile that
  contains a point, rows counted southward. A rectangle is valid when its corners are
  coordinates on the globe and differ; an empty byte array does not decode.
\<close>

definition osm :: ext where
  "osm =
     \<lparr>ll2m = (\<lambda>c. \<lparr>px = lon c, py = rad2deg (ln (tan (pi / 4 + deg2rad (lat c) / 2)))\<rparr>),
      m2ll = (\<lambda>p. \<lparr>lon = px p, lat = rad2deg (2 * arctan (exp (deg2rad (py p))) - pi / 2)\<rparr>),
      zoom2scale = (\<lambda>z. 360 / (256 * 2 ^ unat z)),
      scale2zoom = (\<lambda>s. word_of_int \<lfloor>log 2 (360 / (s * 256))\<rfloor>),
      mercator2tile = (\<lambda>p z.
        \<lparr>ix = word_of_int \<lfloor>(px p + 180) / 360 * 2 ^ unat z\<rfloor>,
         iy = word_of_int \<lfloor>(1 - (py p + 180) / 360) * 2 ^ unat z\<rfloor>\<rparr>),
      TILE_SIZE = 256,
      rectc_isValid = (\<lambda>r. \<bar>lon (topLeft r)\<bar> \<le> 180 \<and> \<bar>lat (topLeft r)\<bar> \<le> 90
        \<and> \<bar>lon (bottomRight r)\<bar> \<le> 180 \<and> \<bar>lat (bottomRight r)\<bar> \<le> 90
        \<and> topLeft r \<noteq> bottomRight r),
      loadFromData = (\<lambda>d. if d = [] then None else Some d),
      ENABLE_HIDPI = False\<rparr>"

definition mbtiles_columns :: "QSqlField list" where
  "mbtiles_columns =
     [\<lparr>field_name = ''zoom_level'', field_type = MetaInt\<rparr>,
      \<lparr>field_name = ''tile_column'', field_type = MetaInt\<rparr>,
      \<lparr>field_name = ''tile_row'', field_type = MetaInt\<rparr>,
      \<lparr>field_name = ''tile_data'', field_type = MetaQByteArray\<rparr>]"

text \<open>Members before the constructor body runs: nothing is open, nothing is set.\<close>

definition blank :: MBTilesMap where
  "blank =
     \<lparr>db = sqlite [] [], fileName = [], zooms = \<lparr>range_min = 0, range_max = 0\<rparr>,
      geoBounds = \<lparr>topLeft = \<lparr>lon = 0, lat = 0\<rparr>, bottomRight = \<lparr>lon = 0, lat = 0\<rparr>\<rparr>,
      zoom = 0, deviceRatio = 0, tileRatio = 0, valid = False, errorString = []\<rparr>"

text \<open>A file with the whole world in one tile at zoom 0 and its four quarters at zoom 1.\<close>

definition world_tiles :: "tile list" where
  "world_tiles =
     [\<lparr>zoom_level = 0, tile_column = 0, tile_row = 0, tile_data = ''w''\<rparr>,
      \<lparr>zoom_level = 1, tile_column = 0, tile_row = 0, tile_data = ''sw''\<rparr>,
      \<lparr>zoom_level = 1, tile_column = 1, tile_row = 0, tile_data = ''se''\<rparr>,
      \<lparr>zoom_level = 1, tile_column = 0, tile_row = 1, tile_data = ''nw''\<rparr>,
      \<lparr>zoom_level = 1, tile_column = 1, tile_row = 1, tile_data = ''ne''\<rparr>]"

definition world_map :: MBTilesMap where
  "world_map = construct osm blank ''world.mbtiles'' (sqlite mbtiles_columns world_tiles)"

text \<open>A file whose table \<open>tiles\<close> has the required columns and no row.\<close>

definition empty_map :: MBTilesMap where
  "empty_map = construct osm blank ''empty.mbtiles'' (sqlite mbtiles_columns [])"

text \<open>A file with tiles at zoom 0 and at zoom 2147483647, the largest \<open>int\<close>.\<close>

definition deep_tiles :: "tile list" where
  "deep_tiles =
     [\<lparr>zoom_level = 0, tile_column = 0, tile_row = 0, tile_data = ''w''\<rparr>,
      \<lparr>zoom_level = 2147483647, tile_column = 0, tile_row = 0, tile_data = ''d''\<rparr>]"

definition deep_map :: MBTilesMap where
  "deep_map = construct osm blank ''deep.mbtiles'' (sqlite mbtiles_columns deep_tiles)"

text \<open>
  A file with tiles at zoom 0 and at zoom 32; the tile at zoom 32 sits in column 0 of
  the storage row \<open>2^32 - 5 - 1\<close>.
\<close>

definition far_tiles :: "tile list" where
  "far_tiles =
     [\<lparr>zoom_level = 0, tile_column = 0, tile_row = 0, tile_data = ''w''\<rparr>,
      \<lparr>zoom_level = 32, tile_column = 0, tile_row = 4294967290, tile_data = ''f''\<rparr>]"

definition far_map :: MBTilesMap where
  "far_map = construct osm blank ''far.mbtiles'' (sqlite mbtiles_columns far_tiles)"

section \<open>Facts about 32-bit integers\<close>

lemma sint_add1: "sint (z :: cint) < 2147483647 \<Longrightarrow> sint (z + 1) = sint z + 1"
proof -
  assume a: "sint z < 2147483647"
  have "- (2 ^ 31) \<le> sint z" using sint_ge [of z] by simp
  then have "signed_take_bit 31 (sint z + 1) = sint z + 1"
    using a by (intro signed_take_bit_int_eq_self) simp_all
  then show ?thesis by (simp add: sint_word_ariths)
qed

lemma sint_sub1: "- 2147483648 < sint (z :: cint) \<Longrightarrow> sint (z - 1) = sint z - 1"
proof -
  assume a: "- 2147483648 < sint z"
  have "sint z < 2 ^ 31" using sint_lt [of z] by simp
  then have "signed_take_bit 31 (sint z - 1) = sint z - 1"
    using a by (intro signed_take_bit_int_eq_self) simp_all
  then show ?thesis by (simp add: sint_word_ariths)
qed

lemma unat_of_nonneg: "0 \<le> sint (n :: cint) \<Longrightarrow> unat n = nat (sint n)"
proof -
  assume a: "0 \<le> sint n"
  have "sint n < 2 ^ 32" using sint_lt [of n] by simp
  then have "take_bit 32 (sint n) = sint n"
    using a by (simp add: take_bit_int_eq_self)
  then have "uint n = sint n" using uint_sint [of n] by simp
  then show ?thesis by (simp add: unat_eq_nat_uint)
qed

lemma sint_pow2: "k < 31 \<Longrightarrow> sint ((2::cint) ^ k) = 2 ^ k"
proof -
  assume k: "k < 31"
  have "(2::int) ^ k < 2 ^ 31" using k by (intro power_strict_increasing) simp_all
  moreover have "- (2 ^ 31) \<le> (2::int) ^ k"
    by (rule order_trans [of _ 0]) simp_all
  ultimately have "signed_take_bit 31 ((2::int) ^ k) = 2 ^ k"
    by (intro signed_take_bit_int_eq_self) simp_all
  moreover have "sint (word_of_int (2 ^ k) :: cint) = signed_take_bit 31 (2 ^ k)"
    by (simp only: sint_sbintrunc') simp
  ultimately show ?thesis by simp
qed

lemma shl1_pow2: "0 \<le> sint z \<Longrightarrow> sint z \<le> 31 \<Longrightarrow> shl1 z = 2 ^ nat (sint z)"
  by (simp add: shl1_def unat_of_nonneg)

lemma sint_shl1: "0 \<le> sint z \<Longrightarrow> sint z \<le> 30 \<Longrightarrow> sint (shl1 z) = 2 ^ nat (sint z)"
  by (simp add: shl1_pow2 sint_pow2)

lemma qMin_real_min: "qMin_real a b = min a b"
  by (simp add: qMin_real_def min_def)

lemma qMax_real_max: "qMax_real a b = max a b"
  by (simp add: qMax_real_def max_def)

section \<open>Tile index to longitude\<close>

text \<open>
  C9. For a zoom from 0 to 30, where \<open>1 << zoom\<close> is \<open>2^zoom\<close>, and every index,
  \<open>index2mercator\<close> is \<open>-180 + 360 * index / 2^zoom\<close> in exact real arithmetic.
\<close>

theorem index2mercator_longitude:
  assumes "0 \<le> sint z" and "sint z \<le> 30"
  shows "index2mercator i z = - 180 + 360 * real_of_int (sint i) / 2 ^ nat (sint z)"
proof -
  have "to_double (shl1 z) = 2 ^ nat (sint z)"
    using assms by (simp add: to_double_def sint_shl1)
  then show ?thesis
    by (simp add: index2mercator_def rad2deg_def to_double_def field_simps)
qed

theorem index2mercator_longitude_witness:
  "index2mercator 3 2 = 90 \<and> index2mercator 0 0 = - 180 \<and> index2mercator (- 1) 1 = - 360"
  using index2mercator_longitude [of 2 3] index2mercator_longitude [of 0 0]
    index2mercator_longitude [of 1 "- 1"]
  by simp

section \<open>The concrete maps, evaluated\<close>

lemmas construct_eval = construct_def sqlite_def mbtiles_columns_def field_def toInt_def
  sql_min_def sql_max_def Let_def Range_isValid_def word_sless_alt word_sle_eq

lemma world_map_zooms: "zooms world_map = \<lparr>range_min = 0, range_max = 1\<rparr>"
  by (simp add: world_map_def world_tiles_def construct_eval split: prod.splits)

lemma world_map_valid: "valid world_map"
  by (simp add: world_map_def world_tiles_def construct_eval split: prod.splits)

lemma world_map_zoom: "zoom world_map = 1"
  by (simp add: world_map_def world_tiles_def construct_eval split: prod.splits)

lemma world_map_tileRatio: "tileRatio world_map = 1"
  by (simp add: world_map_def world_tiles_def construct_eval split: prod.splits)

lemma world_map_deviceRatio: "deviceRatio world_map = 1"
  by (simp add: world_map_def world_tiles_def construct_eval split: prod.splits)

lemma world_map_db_opens: "opens (db world_map)"
  by (simp add: world_map_def world_tiles_def construct_eval split: prod.splits)

lemma world_map_db_closed: "\<not> isOpen (db world_map)"
  by (simp add: world_map_def world_tiles_def construct_eval split: prod.splits)

lemma index2mercator_0_0: "index2mercator 0 0 = - 180"
  by (simp add: index2mercator_def rad2deg_def to_double_def shl1_def)

lemma index2mercator_1_0: "index2mercator 1 0 = 180"
  by (simp add: index2mercator_def rad2deg_def to_double_def shl1_def)

lemma world_map_geoBounds:
  "geoBounds world_map =
     \<lparr>topLeft = \<lparr>lon = - 180, lat = min (rad2deg (2 * arctan (exp pi) - pi / 2)) 85.0511\<rparr>,
      bottomRight = \<lparr>lon = 180, lat = max (rad2deg (2 * arctan (exp (- pi)) - pi / 2)) (- 85.0511)\<rparr>\<rparr>"
  by (simp add: world_map_def world_tiles_def construct_eval qMin_int_def qMax_int_def
      shl1_def index2mercator_0_0 index2mercator_1_0 osm_def deg2rad_def
      qMin_real_min qMax_real_max
      split: prod.splits)

lemma deep_map_zooms: "zooms deep_map = \<lparr>range_min = 0, range_max = 2147483647\<rparr>"
  by (simp add: deep_map_def deep_tiles_def construct_eval split: prod.splits)

lemma deep_map_valid: "valid deep_map"
  by (simp add: deep_map_def deep_tiles_def construct_eval split: prod.splits)

lemma deep_map_zoom: "zoom deep_map = 2147483647"
  by (simp add: deep_map_def deep_tiles_def construct_eval split: prod.splits)

section \<open>The spherical Mercator pair\<close>

lemma rad2deg_deg2rad: "rad2deg (deg2rad d) = d"
  by (simp add: rad2deg_def deg2rad_def)

lemma deg2rad_rad2deg: "deg2rad (rad2deg r) = r"
  by (simp add: rad2deg_def deg2rad_def)

lemma osm_ll2m_m2ll: "ll2m osm (m2ll osm q) = q"
proof -
  have "pi / 4 + (2 * arctan (exp (deg2rad (py q))) - pi / 2) / 2
      = arctan (exp (deg2rad (py q)))"
    by (simp add: field_simps)
  then show ?thesis
    by (simp add: osm_def deg2rad_rad2deg rad2deg_deg2rad tan_arctan)
qed

lemma mercator_angle:
  assumes "\<bar>d\<bar> < 90"
  shows "0 < pi / 4 + deg2rad d / 2" and "pi / 4 + deg2rad d / 2 < pi / 2"
proof -
  let ?a = "pi / 4 + deg2rad d / 2"
  have e1: "?a = pi * (1 / 4 + d / 360)"
    and e2: "pi / 2 - ?a = pi * (1 / 4 - d / 360)"
    by (simp_all add: deg2rad_def field_simps)
  have "0 < 1 / 4 + d / 360" and "0 < 1 / 4 - d / 360"
    using assms by (simp_all add: abs_less_iff)
  then have p1: "0 < pi * (1 / 4 + d / 360)" and p2: "0 < pi * (1 / 4 - d / 360)"
    by (simp_all only: mult_pos_pos pi_gt_zero)
  show "0 < ?a" by (subst e1) (rule p1)
  have "0 < pi / 2 - ?a" by (subst e2) (rule p2)
  then show "?a < pi / 2" by linarith
qed

lemma osm_m2ll_ll2m:
  assumes "\<bar>lat c\<bar> < 90"
  shows "m2ll osm (ll2m osm c) = c"
proof -
  let ?a = "pi / 4 + deg2rad (lat c) / 2"
  have lo: "0 < ?a" and hi: "?a < pi / 2"
    using mercator_angle [OF assms] by simp_all
  have pos: "0 < tan ?a" using lo hi by (rule tan_gt_zero)
  have "arctan (tan ?a) = ?a" using lo hi by (intro arctan_tan) simp_all
  then have "2 * arctan (exp (ln (tan ?a))) - pi / 2 = deg2rad (lat c)"
    using pos by simp
  then show ?thesis
    by (simp add: osm_def deg2rad_rad2deg rad2deg_deg2rad)
qed

lemma north_lat: "0 < rad2deg (2 * arctan (exp pi) - pi / 2)"
proof -
  have "arctan 1 < arctan (exp pi)" by (intro arctan_less_iff [THEN iffD2]) simp
  then show ?thesis by (simp add: rad2deg_def arctan_one)
qed

lemma south_lat: "rad2deg (2 * arctan (exp (- pi)) - pi / 2) < 0"
proof -
  have "arctan (exp (- pi)) < arctan 1" by (intro arctan_less_iff [THEN iffD2]) simp
  then have "2 * arctan (exp (- pi)) - pi / 2 < 0" by (simp add: arctan_one)
  then have "(2 * arctan (exp (- pi)) - pi / 2) * (180 / pi) < 0"
    by (intro mult_neg_pos) simp_all
  then show ?thesis by (simp add: rad2deg_def)
qed

lemma mercator_north:
  assumes "0 < lat c" and "lat c < 90"
  shows "0 < py (ll2m osm c)"
proof -
  let ?a = "pi / 4 + deg2rad (lat c) / 2"
  have hi: "?a < pi / 2" using mercator_angle(2) [of "lat c"] assms by simp
  have "0 < deg2rad (lat c)" using assms by (simp add: deg2rad_def)
  then have lo: "pi / 4 < ?a" by simp
  have "tan (pi / 4) < tan ?a" using lo hi by (intro tan_monotone) simp_all
  then have "0 < ln (tan ?a)" by (simp add: tan_45)
  then show ?thesis by (simp add: osm_def rad2deg_def)
qed

lemma mercator_south:
  assumes "lat c < 0" and "- 90 < lat c"
  shows "py (ll2m osm c) < 0"
proof -
  let ?a = "pi / 4 + deg2rad (lat c) / 2"
  have lo: "0 < ?a" using mercator_angle(1) [of "lat c"] assms by simp
  have "deg2rad (lat c) < 0" using assms by (simp add: deg2rad_def mult_neg_pos)
  then have hi: "?a < pi / 4" by simp
  have "tan ?a < tan (pi / 4)" using lo hi by (intro tan_monotone) simp_all
  moreover have "0 < tan ?a" using lo hi by (intro tan_gt_zero) simp_all
  ultimately have "ln (tan ?a) < 0" by (simp add: tan_45)
  then have "ln (tan ?a) * (180 / pi) < 0" by (intro mult_neg_pos) simp_all
  then show ?thesis by (simp add: osm_def rad2deg_def)
qed

section \<open>Construction\<close>

lemma field_member:
  assumes "field_name (field r i) = n" and "field_type (field r i) = t" and "n \<noteq> []"
  shows "\<lparr>field_name = n, field_type = t\<rparr> \<in> set r"
proof -
  have "i < length r" using assms(1,3) by (auto simp: field_def split: if_splits)
  then have "field r i \<in> set r" by (simp add: field_def)
  moreover have "field r i = \<lparr>field_name = n, field_type = t\<rparr>"
    using assms(1,2) by (cases "field r i") simp
  ultimately show ?thesis by simp
qed

lemma checked_columns_required:
  assumes "field_name (field r 0) = ''zoom_level''" "field_type (field r 0) = MetaInt"
    "field_name (field r 1) = ''tile_column''" "field_type (field r 1) = MetaInt"
    "field_name (field r 2) = ''tile_row''" "field_type (field r 2) = MetaInt"
    "field_name (field r 3) = ''tile_data''" "field_type (field r 3) = MetaQByteArray"
  shows "has_required_columns r"
  unfolding has_required_columns_def
  using field_member [OF assms(1,2)] field_member [OF assms(3,4)]
    field_member [OF assms(5,6)] field_member [OF assms(7,8)]
  by simp

text \<open>
  What the constructor does reject: a file that does not open, a table without the
  four columns, a zoom query without a row, a negative minimum zoom, a maximum zoom
  below the minimum.
\<close>

lemma construct_rejects:
  assumes "\<not> opens d \<or> \<not> has_required_columns (tiles_record d) \<or> zoom_query d = None
    \<or> (\<exists>lo hi. zoom_query d = Some (lo, hi) \<and> (lo <s 0 \<or> hi <s lo))"
  shows "\<not> valid (construct E b0 file d) \<and> errorString (construct E b0 file d) \<noteq> []"
proof -
  have c: "\<not> has_required_columns (tiles_record d) \<Longrightarrow>
    tiles_record d = []
    \<or> field_name (field (tiles_record d) 0) \<noteq> ''zoom_level''
    \<or> field_type (field (tiles_record d) 0) \<noteq> MetaInt
    \<or> field_name (field (tiles_record d) 1) \<noteq> ''tile_column''
    \<or> field_type (field (tiles_record d) 1) \<noteq> MetaInt
    \<or> field_name (field (tiles_record d) 2) \<noteq> ''tile_row''
    \<or> field_type (field (tiles_record d) 2) \<noteq> MetaInt
    \<or> field_name (field (tiles_record d) 3) \<noteq> ''tile_data''
    \<or> field_type (field (tiles_record d) 3) \<noteq> MetaQByteArray"
    using checked_columns_required [of "tiles_record d"] by blast
  show ?thesis
  proof (cases "opens d")
    case False
    then show ?thesis by (simp add: construct_def Let_def)
  next
    case True
    note o = this
    show ?thesis
    proof (cases "has_required_columns (tiles_record d)")
      case False
      from c [OF this] show ?thesis using o by (simp add: construct_def Let_def)
    next
      case True
      then have "zoom_query d = None
        \<or> (\<exists>lo hi. zoom_query d = Some (lo, hi) \<and> (lo <s 0 \<or> hi <s lo))"
        using assms o by simp
      then show ?thesis
        using o
        by (auto simp: construct_def Let_def Range_isValid_def word_sless_alt word_sle_eq
            split: option.splits prod.splits)
    qed
  qed
qed

text \<open>What holds of a map that the constructor leaves valid.\<close>

lemma construct_valid:
  assumes "valid (construct E b0 file d)"
  shows "0 \<le> sint (range_min (zooms (construct E b0 file d)))"
    and "Range_isValid (zooms (construct E b0 file d))"
    and "zoom (construct E b0 file d) = range_max (zooms (construct E b0 file d))"
    and "errorString (construct E b0 file d) = []"
  using assms
  by (auto simp: construct_def Let_def word_sless_alt
      split: if_splits option.splits prod.splits)

text \<open>
  C1. The claim holds but for the empty tile set. For a file whose table \<open>tiles\<close> has
  the four columns and no row, the aggregate query still yields its one row, so the
  branch "Empty tile set" is not taken: the zoom range becomes \<open>[0, 0]\<close>, which is not
  negative and not degenerate, and the map ends valid with an empty error string.
\<close>

theorem empty_tile_set_accepted:
  "valid empty_map \<and> errorString empty_map = []
   \<and> zooms empty_map = \<lparr>range_min = 0, range_max = 0\<rparr> \<and> zoom empty_map = 0"
  by (simp add: empty_map_def construct_eval split: prod.splits)

text \<open>
  C7. Whatever the database answers, when the constructor leaves the map valid the
  top-left latitude of the bounds is at most 85.0511 and the bottom-right latitude is
  at least -85.0511.
\<close>

theorem geoBounds_latitude_clamped:
  assumes "valid (construct E b0 file d)"
  shows "lat (topLeft (geoBounds (construct E b0 file d))) \<le> 85.0511
    \<and> - 85.0511 \<le> lat (bottomRight (geoBounds (construct E b0 file d)))"
proof -
  have "min a 85.0511 \<le> (85.0511::real)" and "- 85.0511 \<le> max a (- 85.0511 :: real)" for a
    by simp_all
  then show ?thesis
    using assms
    by (auto simp: construct_def Let_def qMin_real_min qMax_real_max
        split: if_splits option.splits prod.splits)
qed

theorem geoBounds_latitude_clamped_witness:
  "valid world_map \<and> lat (topLeft (geoBounds world_map)) \<le> 85.0511
    \<and> - 85.0511 \<le> lat (bottomRight (geoBounds world_map))"
  using world_map_valid
    geoBounds_latitude_clamped [of osm blank "''world.mbtiles''" "sqlite mbtiles_columns world_tiles"]
  by (simp add: world_map_def)

section \<open>Opening and closing the connection\<close>

text \<open>
  C8. For a file that can be opened, \<open>load\<close> leaves the connection open and \<open>unload\<close>
  leaves it closed; neither changes the zoom range, the current zoom, the bounds, the
  two ratios, the validity flag or the error string; calling either twice is the same
  as calling it once, and \<open>load\<close> on an open connection and \<open>unload\<close> on a closed one
  change nothing.
\<close>

theorem load_unload_frame:
  assumes "opens (db m)"
  shows "isOpen (db (load m)) \<and> \<not> isOpen (db (unload m))
    \<and> zooms (load m) = zooms m \<and> zooms (unload m) = zooms m
    \<and> zoom (load m) = zoom m \<and> zoom (unload m) = zoom m
    \<and> geoBounds (load m) = geoBounds m \<and> geoBounds (unload m) = geoBounds m
    \<and> deviceRatio (load m) = deviceRatio m \<and> deviceRatio (unload m) = deviceRatio m
    \<and> tileRatio (load m) = tileRatio m \<and> tileRatio (unload m) = tileRatio m
    \<and> valid (load m) = valid m \<and> valid (unload m) = valid m
    \<and> errorString (load m) = errorString m \<and> errorString (unload m) = errorString m
    \<and> load (load m) = load m \<and> unload (unload m) = unload m
    \<and> (isOpen (db m) \<longrightarrow> load m = m) \<and> (\<not> isOpen (db m) \<longrightarrow> unload m = m)"
  using assms by (simp add: load_def unload_def)

theorem load_unload_frame_witness:
  "isOpen (db (load world_map)) \<and> \<not> isOpen (db (unload world_map))
   \<and> zoom (load world_map) = 1 \<and> zoom (unload (load world_map)) = 1
   \<and> load (load world_map) = load world_map \<and> unload world_map = world_map"
  using load_unload_frame [OF world_map_db_opens] world_map_db_closed
    load_unload_frame [of "load world_map"]
  by (simp add: world_map_zoom load_def)

section \<open>Clamping a zoom level\<close>

lemma limitZoom_in_range:
  assumes "Range_isValid (zooms m)"
  shows "range_min (zooms m) \<le>s limitZoom m z \<and> limitZoom m z \<le>s range_max (zooms m)"
  using assms
  by (auto simp: limitZoom_def Range_isValid_def word_sless_alt word_sle_eq)

text \<open>
  C5. On a zoom range with \<open>min \<le> max\<close>, \<open>limitZoom\<close> is idempotent, a zoom below the
  range goes to its minimum, a zoom above the range goes to its maximum, and a zoom
  inside the range is returned unchanged.
\<close>

theorem limitZoom_clamp:
  assumes "Range_isValid (zooms m)"
  shows "limitZoom m (limitZoom m z) = limitZoom m z
    \<and> (z <s range_min (zooms m) \<longrightarrow> limitZoom m z = range_min (zooms m))
    \<and> (range_max (zooms m) <s z \<longrightarrow> limitZoom m z = range_max (zooms m))
    \<and> (range_min (zooms m) \<le>s z \<and> z \<le>s range_max (zooms m) \<longrightarrow> limitZoom m z = z)"
  using assms
  by (auto simp: limitZoom_def Range_isValid_def word_sless_alt word_sle_eq)

theorem limitZoom_clamp_witness:
  "Range_isValid (zooms world_map)
   \<and> limitZoom world_map (limitZoom world_map 7) = limitZoom world_map 7
   \<and> limitZoom world_map 7 = 1 \<and> limitZoom world_map (- 3) = 0
   \<and> limitZoom world_map 1 = 1"
proof -
  have v: "Range_isValid (zooms world_map)"
    by (simp add: world_map_zooms Range_isValid_def word_sle_eq)
  have a: "range_max (zooms world_map) <s 7" "- 3 <s range_min (zooms world_map)"
    "range_min (zooms world_map) \<le>s 1 \<and> 1 \<le>s range_max (zooms world_map)"
    by (simp_all add: world_map_zooms word_sless_alt word_sle_eq)
  show ?thesis
    using v a limitZoom_clamp [OF v, of 7] limitZoom_clamp [OF v, of "- 3"]
      limitZoom_clamp [OF v, of 1]
    by (simp add: world_map_zooms)
qed

section \<open>The current zoom stays in the zoom range\<close>

lemma mutate_zooms: "zooms (mutate E m mu) = zooms m"
  by (cases mu) (simp_all add: zoomIn_def zoomOut_def zoomFit_def Let_def)

lemma mutate_in_range:
  assumes v: "Range_isValid (zooms m)" and lo: "0 \<le> sint (range_min (zooms m))"
    and hi: "sint (range_max (zooms m)) < 2147483647" and i: "zoom_in_range m"
  shows "zoom_in_range (mutate E m mu)"
proof (cases mu)
  case ZoomIn
  have "sint (zoom m) < 2147483647"
    using i hi by (simp add: zoom_in_range_def word_sle_eq)
  then have "sint (zoom m + 1) = sint (zoom m) + 1" by (rule sint_add1)
  then show ?thesis
    using ZoomIn i v
    by (auto simp: zoomIn_def Let_def zoom_in_range_def qMin_int_def Range_isValid_def
        word_sless_alt word_sle_eq)
next
  case ZoomOut
  have "- 2147483648 < sint (zoom m)"
    using i lo by (simp add: zoom_in_range_def word_sle_eq)
  then have "sint (zoom m - 1) = sint (zoom m) - 1" by (rule sint_sub1)
  then show ?thesis
    using ZoomOut i v
    by (auto simp: zoomOut_def Let_def zoom_in_range_def qMax_int_def Range_isValid_def
        word_sless_alt word_sle_eq)
next
  case (ZoomFit vsize rect)
  show ?thesis
    using ZoomFit v limitZoom_in_range [OF v]
    by (simp add: zoomFit_def Let_def zoom_in_range_def Range_isValid_def)
qed

lemma foldl_mutate:
  assumes "Range_isValid (zooms m)" and "0 \<le> sint (range_min (zooms m))"
    and "sint (range_max (zooms m)) < 2147483647" and "zoom_in_range m"
  shows "zooms (foldl (mutate E) m ms) = zooms m \<and> zoom_in_range (foldl (mutate E) m ms)"
  using assms
proof (induction ms arbitrary: m)
  case Nil
  then show ?case by simp
next
  case (Cons mu ms)
  have "zoom_in_range (mutate E m mu)"
    using Cons.prems by (intro mutate_in_range)
  then show ?case
    using Cons.IH [of "mutate E m mu"] Cons.prems by (simp add: mutate_zooms)
qed

lemma zoomIn_at_max:
  assumes "sint (range_max (zooms m)) < 2147483647" and "zoom m = range_max (zooms m)"
  shows "fst (zoomIn m) = range_max (zooms m)"
proof -
  have "sint (zoom m + 1) = sint (zoom m) + 1" using assms by (intro sint_add1) simp
  then show ?thesis
    using assms by (simp add: zoomIn_def Let_def qMin_int_def word_sless_alt)
qed

lemma zoomOut_at_min:
  assumes "0 \<le> sint (range_min (zooms m))" and "zoom m = range_min (zooms m)"
  shows "fst (zoomOut m) = range_min (zooms m)"
proof -
  have "sint (zoom m - 1) = sint (zoom m) - 1" using assms by (intro sint_sub1) simp
  then show ?thesis
    using assms by (simp add: zoomOut_def Let_def qMax_int_def word_sless_alt)
qed

text \<open>
  C2, as stated, fails on a map whose largest zoom level is 2147483647: there
  \<open>_zoom + 1\<close> overflows in \<open>zoomIn\<close>, and the zoom leaves the range.
\<close>

theorem zoomIn_overflow_counterexample:
  "valid deep_map \<and> zoom deep_map = range_max (zooms deep_map)
   \<and> sint (range_max (zooms deep_map)) = 2147483647
   \<and> sint (fst (zoomIn deep_map)) = - 2147483648
   \<and> \<not> zoom_in_range (snd (zoomIn deep_map))"
  by (simp add: deep_map_valid deep_map_zoom deep_map_zooms zoomIn_def Let_def qMin_int_def
      zoom_in_range_def word_sless_alt word_sle_eq)

text \<open>
  C2, amended. For a valid map whose largest zoom level is below 2147483647, the
  constructor sets the current zoom to the maximum of the zoom range, and after any
  sequence of \<open>zoomIn\<close>, \<open>zoomOut\<close> and \<open>zoomFit\<close> the zoom range is the same and the
  current zoom lies in it; \<open>zoomIn\<close> at the maximum returns the maximum and \<open>zoomOut\<close> at
  the minimum returns the minimum.
\<close>

theorem zoom_stays_in_range:
  assumes "valid (construct E b0 file d)"
    and "sint (range_max (zooms (construct E b0 file d))) < 2147483647"
  shows "zoom (construct E b0 file d) = range_max (zooms (construct E b0 file d))
    \<and> zooms (foldl (mutate E) (construct E b0 file d) ms) = zooms (construct E b0 file d)
    \<and> zoom_in_range (foldl (mutate E) (construct E b0 file d) ms)
    \<and> (zoom (foldl (mutate E) (construct E b0 file d) ms)
          = range_max (zooms (construct E b0 file d))
        \<longrightarrow> fst (zoomIn (foldl (mutate E) (construct E b0 file d) ms))
          = range_max (zooms (construct E b0 file d)))
    \<and> (zoom (foldl (mutate E) (construct E b0 file d) ms)
          = range_min (zooms (construct E b0 file d))
        \<longrightarrow> fst (zoomOut (foldl (mutate E) (construct E b0 file d) ms))
          = range_min (zooms (construct E b0 file d)))"
proof -
  let ?m = "construct E b0 file d"
  let ?M = "foldl (mutate E) ?m ms"
  note c = construct_valid [OF assms(1)]
  have i: "zoom_in_range ?m"
    using c(2,3) by (simp add: zoom_in_range_def Range_isValid_def)
  have f: "zooms ?M = zooms ?m \<and> zoom_in_range ?M"
    using c(2) c(1) assms(2) i by (rule foldl_mutate)
  have "zoom ?M = range_max (zooms ?m) \<longrightarrow> fst (zoomIn ?M) = range_max (zooms ?m)"
    using zoomIn_at_max [of ?M] assms(2) f by simp
  moreover have "zoom ?M = range_min (zooms ?m) \<longrightarrow> fst (zoomOut ?M) = range_min (zooms ?m)"
    using zoomOut_at_min [of ?M] c(1) f by simp
  ultimately show ?thesis using c(3) f by simp
qed

theorem zoom_stays_in_range_witness:
  "valid world_map
   \<and> zoom_in_range (foldl (mutate osm) world_map [ZoomOut, ZoomOut, ZoomIn, ZoomIn, ZoomIn])
   \<and> zoom (foldl (mutate osm) world_map [ZoomOut, ZoomOut]) = 0
   \<and> zoom (foldl (mutate osm) world_map [ZoomOut, ZoomOut, ZoomIn, ZoomIn, ZoomIn]) = 1
   \<and> fst (zoomIn world_map) = 1"
proof -
  have v: "valid (construct osm blank ''world.mbtiles'' (sqlite mbtiles_columns world_tiles))"
    using world_map_valid by (simp add: world_map_def)
  have b: "sint (range_max (zooms (construct osm blank ''world.mbtiles''
      (sqlite mbtiles_columns world_tiles)))) < 2147483647"
    using world_map_zooms by (simp add: world_map_def)
  have e: "zoom (foldl (mutate osm) world_map [ZoomOut, ZoomOut]) = 0"
    "zoom (foldl (mutate osm) world_map [ZoomOut, ZoomOut, ZoomIn, ZoomIn, ZoomIn]) = 1"
    by (simp_all add: zoomIn_def zoomOut_def Let_def qMin_int_def qMax_int_def
        world_map_zoom world_map_zooms word_sless_alt)
  show ?thesis
    using zoom_stays_in_range [OF v b, of "[ZoomOut, ZoomOut, ZoomIn, ZoomIn, ZoomIn]"]
      zoom_stays_in_range [OF v b, of "[]"] e world_map_valid
    by (simp add: world_map_def [symmetric] world_map_zoom world_map_zooms)
qed

section \<open>Fitting the zoom to a rectangle\<close>

lemma neg_diff_divide: "- ((a - b) / c) = (b - a) / (c::real)"
  by (metis minus_diff_eq minus_divide_left)

text \<open>
  C3. \<open>zoomFit\<close> sets and returns the maximum of the zoom range when the rectangle is
  invalid, and otherwise the clamped \<open>scale2zoom\<close> of the larger of projected width by
  viewport width and negated projected height by viewport height, divided by the
  coordinates ratio, the projected extent being the difference of the projected
  bottom-right and top-left corners.
\<close>

theorem zoomFit_as_specified:
  "zoomFit E vsize rect m
     = (zoomFit_spec E m vsize rect, m\<lparr>zoom := zoomFit_spec E m vsize rect\<rparr>)"
  by (simp add: zoomFit_def zoomFit_spec_def Let_def QRectF_corners_def qMax_real_def
      to_double_def max_def neg_diff_divide)

text \<open>A quarter of the equator in a viewport of one tile asks for zoom 2; the map stops at 1.\<close>

lemma floor_log2_4: "\<lfloor>log 2 4\<rfloor> = (2::int)"
proof -
  have "log 2 (2 ^ 2) = 2" by (subst log_pow_cancel) simp_all
  then show ?thesis by simp
qed

lemma zoomFit_example:
  "fst (zoomFit osm \<lparr>size_width = 256, size_height = 256\<rparr>
     \<lparr>topLeft = \<lparr>lon = - 45, lat = 0\<rparr>, bottomRight = \<lparr>lon = 45, lat = 0\<rparr>\<rparr> world_map) = 1"
  by (simp add: zoomFit_def Let_def osm_def QRectF_corners_def to_double_def qMax_real_def
      coordinatesRatio_def world_map_deviceRatio limitZoom_def world_map_zooms
      deg2rad_def rad2deg_def tan_45 floor_log2_4 word_sless_alt)

section \<open>Display rows and storage rows\<close>

lemma storageRow_value:
  assumes "0 \<le> sint z" and "sint z \<le> 31"
    and "0 \<le> sint r" and "sint r \<le> 2 ^ nat (sint z) - 1"
  shows "sint (storageRow z r) = 2 ^ nat (sint z) - sint r - 1"
proof -
  let ?k = "(2::int) ^ nat (sint z) - sint r - 1"
  have "nat (sint z) \<le> 31" using assms by simp
  then have "(2::int) ^ nat (sint z) \<le> 2 ^ 31" by (intro power_increasing) simp_all
  then have b: "- (2 ^ 31) \<le> ?k" "?k < 2 ^ 31" using assms by simp_all
  have "storageRow z r = word_of_int ?k"
    using assms by (simp add: storageRow_def shl1_pow2)
  then have "sint (storageRow z r) = signed_take_bit 31 ?k"
    by (simp only: sint_sbintrunc') simp
  also have "\<dots> = ?k" using b by (intro signed_take_bit_int_eq_self) simp_all
  finally show ?thesis .
qed

lemma far_map_valid: "valid far_map"
  by (simp add: far_map_def far_tiles_def construct_eval split: prod.splits)

lemma far_map_zoom: "zoom far_map = 32"
  by (simp add: far_map_def far_tiles_def construct_eval split: prod.splits)

lemma far_map_tileData: "tileData (load far_map) 32 \<lparr>ix = 0, iy = 5\<rparr> = []"
  by (simp add: tileData_def load_def storageRow_def shl1_def far_map_def far_tiles_def
      construct_eval split: prod.splits)

lemma world_map_tile_query:
  "tile_query (db (load world_map)) 1 0 1 = Some ''nw''"
  by (simp add: load_def world_map_def world_tiles_def construct_eval split: prod.splits)

text \<open>
  C6, as stated, fails at a zoom level of 32 or more, where \<open>2^zoom\<close> is no \<open>int\<close>: on
  a valid map at zoom 32, \<open>tileData\<close> for the display row 5 binds the row -5, not
  \<open>2^32 - 5 - 1\<close>, and does not find the tile stored there.
\<close>

theorem storageRow_zoom32_counterexample:
  "valid far_map \<and> zoom far_map = 32
   \<and> 0 \<le> sint (5 :: cint) \<and> sint (5 :: cint) \<le> 2 ^ 32 - 1
   \<and> sint (storageRow 32 5) = - 5
   \<and> sint (storageRow 32 5) \<noteq> 2 ^ 32 - sint (5 :: cint) - 1
   \<and> tileData (load far_map) 32 \<lparr>ix = 0, iy = 5\<rparr> = []"
  by (simp add: far_map_valid far_map_zoom far_map_tileData storageRow_def shl1_def)

text \<open>
  C6, amended. On an open connection, for a zoom from 0 to 31 and a display row from 0
  to \<open>2^zoom - 1\<close>, \<open>tileData\<close> answers with the blob that the query finds at the
  converted row, the converted row is \<open>2^zoom - row - 1\<close>, and converting twice at the
  same zoom gives the row back.
\<close>

theorem tileData_storage_row:
  assumes "isOpen (db m)"
    and "0 \<le> sint z" and "sint z \<le> 31"
    and "0 \<le> sint (iy t)" and "sint (iy t) \<le> 2 ^ nat (sint z) - 1"
  shows "tileData m z t
      = (case tile_query (db m) z (ix t) (storageRow z (iy t)) of Some d \<Rightarrow> d | None \<Rightarrow> [])
    \<and> sint (storageRow z (iy t)) = 2 ^ nat (sint z) - sint (iy t) - 1
    \<and> storageRow z (storageRow z (iy t)) = iy t"
proof -
  have "tileData m z t
      = (case tile_query (db m) z (ix t) (storageRow z (iy t)) of Some d \<Rightarrow> d | None \<Rightarrow> [])"
    using assms(1) by (simp add: tileData_def)
  moreover have "sint (storageRow z (iy t)) = 2 ^ nat (sint z) - sint (iy t) - 1"
    using assms(2-5) by (rule storageRow_value)
  moreover have "storageRow z (storageRow z (iy t)) = iy t"
    by (simp add: storageRow_def)
  ultimately show ?thesis by simp
qed

theorem tileData_storage_row_witness:
  "isOpen (db (load world_map))
   \<and> tileData (load world_map) 1 \<lparr>ix = 0, iy = 0\<rparr> = ''nw''
   \<and> sint (storageRow 1 0) = 1 \<and> storageRow 1 (storageRow 1 0) = 0
   \<and> sint (storageRow 31 0) = 2147483647"
proof -
  have o: "isOpen (db (load world_map))"
    by (simp add: load_def world_map_db_opens)
  have s: "storageRow 1 0 = 1" by (simp add: storageRow_def shl1_def)
  show ?thesis
    using o tileData_storage_row [OF o, of 1 "\<lparr>ix = 0, iy = 0\<rparr>"]
      tileData_storage_row [OF o, of 31 "\<lparr>ix = 0, iy = 0\<rparr>"]
    by (simp add: s world_map_tile_query)
qed

section \<open>Display coordinates\<close>

text \<open>
  C10. With a projection pair \<open>ll2m\<close>, \<open>m2ll\<close> that is mutually inverse (on latitudes up
  to 85.0511 degrees in the one direction, everywhere in the other), a scale that is
  not zero and a positive tile ratio, \<open>xy2ll\<close> undoes \<open>ll2xy\<close> on every coordinate
  with a latitude up to 85.0511 degrees, and \<open>ll2xy\<close> undoes \<open>xy2ll\<close> on every point.
\<close>

theorem ll2xy_xy2ll_inverse:
  assumes "\<forall>c. \<bar>lat c\<bar> \<le> 85.0511 \<longrightarrow> m2ll E (ll2m E c) = c"
    and "\<forall>q. ll2m E (m2ll E q) = q"
    and "zoom2scale E (zoom m) \<noteq> 0"
    and "0 < tileRatio m"
  shows "(\<forall>c. \<bar>lat c\<bar> \<le> 85.0511 \<longrightarrow> xy2ll E m (ll2xy E m c) = c)
    \<and> (\<forall>p. ll2xy E m (xy2ll E m p) = p)"
proof -
  have r: "coordinatesRatio m \<noteq> 0"
    using assms(4) by (simp add: coordinatesRatio_def)
  have a: "QPointF_mul \<lparr>px = px (ll2xy E m c) * zoom2scale E (zoom m),
                         py = - py (ll2xy E m c) * zoom2scale E (zoom m)\<rparr>
             (coordinatesRatio m) = ll2m E c" for c
    using r assms(3) by (simp add: ll2xy_def QPointF_mul_def QPointF_div_def Let_def)
  have b: "ll2xy E m (xy2ll E m p) = p" for p
    using r assms(2,3)
    by (simp add: ll2xy_def xy2ll_def QPointF_mul_def QPointF_div_def Let_def)
  show ?thesis
    using a b assms(1) by (simp add: xy2ll_def Let_def)
qed

theorem ll2xy_xy2ll_inverse_witness:
  "xy2ll osm world_map (ll2xy osm world_map \<lparr>lon = 10, lat = 50\<rparr>) = \<lparr>lon = 10, lat = 50\<rparr>
   \<and> ll2xy osm world_map (xy2ll osm world_map \<lparr>px = 3, py = - 4\<rparr>) = \<lparr>px = 3, py = - 4\<rparr>
   \<and> ll2xy osm world_map \<lparr>lon = 90, lat = 0\<rparr> = \<lparr>px = 128, py = 0\<rparr>"
proof -
  have 1: "\<forall>c. \<bar>lat c\<bar> \<le> 85.0511 \<longrightarrow> m2ll osm (ll2m osm c) = c"
    by (simp add: osm_m2ll_ll2m)
  have 2: "\<forall>q. ll2m osm (m2ll osm q) = q"
    by (simp add: osm_ll2m_m2ll)
  have 3: "zoom2scale osm (zoom world_map) \<noteq> 0"
    by (simp add: osm_def world_map_zoom)
  have 4: "0 < tileRatio world_map"
    by (simp add: world_map_tileRatio)
  have 5: "ll2xy osm world_map \<lparr>lon = 90, lat = 0\<rparr> = \<lparr>px = 128, py = 0\<rparr>"
    by (simp add: ll2xy_def osm_def world_map_zoom coordinatesRatio_def world_map_deviceRatio
        QPointF_div_def deg2rad_def rad2deg_def tan_45)
  show ?thesis
    using ll2xy_xy2ll_inverse [OF 1 2 3 4] 5 by simp
qed

section \<open>Which tiles a call of draw visits\<close>

lemma draw_tile_events:
  "length (events st) < length (events (draw_tile E m tile tl0 b i j st))"
  by (simp add: draw_tile_def Let_def split: option.splits prod.splits)

lemma loop_j_stop:
  "\<lceil>sh s / tileSize E m\<rceil> \<le> j \<Longrightarrow> loop_j E m tile tl0 b s i j st = st"
  by (subst loop_j.simps) simp

lemma loop_j_events:
  "length (events st) \<le> length (events (loop_j E m tile tl0 b s i j st))"
proof (induction E m tile tl0 b s i j st rule: loop_j.induct)
  case (1 E m tile tl0 b s i j st)
  show ?case
  proof (cases "real_of_int j < real_of_int \<lceil>sh s / tileSize E m\<rceil>")
    case True
    have "length (events st) < length (events (draw_tile E m tile tl0 b i j st))"
      by (rule draw_tile_events)
    also have "\<dots> \<le> length (events (loop_j E m tile tl0 b s i (j + 1)
        (draw_tile E m tile tl0 b i j st)))"
      using True by (rule "1.IH")
    finally show ?thesis using True by (subst loop_j.simps) simp
  next
    case False
    then show ?thesis by (subst loop_j.simps) simp
  qed
qed

lemma loop_j_step:
  assumes "j < \<lceil>sh s / tileSize E m\<rceil>"
  shows "length (events st) < length (events (loop_j E m tile tl0 b s i j st))"
proof -
  have "length (events st) < length (events (draw_tile E m tile tl0 b i j st))"
    by (rule draw_tile_events)
  also have "\<dots> \<le> length (events (loop_j E m tile tl0 b s i (j + 1)
      (draw_tile E m tile tl0 b i j st)))"
    by (rule loop_j_events)
  finally show ?thesis using assms by (subst loop_j.simps) simp
qed

lemma loop_i_stop:
  "\<lceil>sw s / tileSize E m\<rceil> \<le> i \<Longrightarrow> loop_i E m tile tl0 b s i st = st"
  by (subst loop_i.simps) simp

lemma loop_i_no_rows:
  "\<lceil>sh s / tileSize E m\<rceil> \<le> 0 \<Longrightarrow> loop_i E m tile tl0 b s i st = st"
proof (induction E m tile tl0 b s i st rule: loop_i.induct)
  case (1 E m tile tl0 b s i st)
  show ?case
  proof (cases "real_of_int i < real_of_int \<lceil>sw s / tileSize E m\<rceil>")
    case True
    have "loop_j E m tile tl0 b s i 0 st = st" using "1.prems" by (rule loop_j_stop)
    then show ?thesis using True "1.IH" "1.prems" by (subst loop_i.simps) simp
  next
    case False
    then show ?thesis by (subst loop_i.simps) simp
  qed
qed

lemma loop_i_events:
  "length (events st) \<le> length (events (loop_i E m tile tl0 b s i st))"
proof (induction E m tile tl0 b s i st rule: loop_i.induct)
  case (1 E m tile tl0 b s i st)
  show ?case
  proof (cases "real_of_int i < real_of_int \<lceil>sw s / tileSize E m\<rceil>")
    case True
    have "length (events st) \<le> length (events (loop_j E m tile tl0 b s i 0 st))"
      by (rule loop_j_events)
    also have "\<dots> \<le> length (events (loop_i E m tile tl0 b s (i + 1)
        (loop_j E m tile tl0 b s i 0 st)))"
      using True by (rule "1.IH")
    finally show ?thesis using True by (subst loop_i.simps) simp
  next
    case False
    then show ?thesis by (subst loop_i.simps) simp
  qed
qed

lemma loop_i_step:
  assumes "i < \<lceil>sw s / tileSize E m\<rceil>" and "0 < \<lceil>sh s / tileSize E m\<rceil>"
  shows "length (events st) < length (events (loop_i E m tile tl0 b s i st))"
proof -
  have "length (events st) < length (events (loop_j E m tile tl0 b s i 0 st))"
    using assms(2) by (rule loop_j_step)
  also have "\<dots> \<le> length (events (loop_i E m tile tl0 b s (i + 1)
      (loop_j E m tile tl0 b s i 0 st)))"
    by (rule loop_i_events)
  finally show ?thesis using assms(1) by (subst loop_i.simps) simp
qed

lemma ceiling_quotient_pos:
  assumes "0 < (t::real)"
  shows "0 < \<lceil>a / t\<rceil> \<longleftrightarrow> 0 < a"
  using assms by (simp add: zero_less_divide_iff)

lemma loop_j_unroll:
  "j < \<lceil>sh s / tileSize E m\<rceil> \<Longrightarrow>
   loop_j E m tile tl0 b s i j st
     = loop_j E m tile tl0 b s i (j + 1) (draw_tile E m tile tl0 b i j st)"
  by (subst loop_j.simps) simp

lemma loop_i_unroll:
  "i < \<lceil>sw s / tileSize E m\<rceil> \<Longrightarrow>
   loop_i E m tile tl0 b s i st
     = loop_i E m tile tl0 b s (i + 1) (loop_j E m tile tl0 b s i 0 st)"
  by (subst loop_i.simps) simp

lemma draw_skips:
  assumes "\<lceil>sw (draw_extent E m rect) / tileSize E m\<rceil> \<le> 0
    \<or> \<lceil>sh (draw_extent E m rect) / tileSize E m\<rceil> \<le> 0"
  shows "draw E m rect st = st"
  using assms by (auto simp: draw_def Let_def loop_i_stop loop_i_no_rows)

lemma draw_visits:
  assumes "0 < \<lceil>sw (draw_extent E m rect) / tileSize E m\<rceil>"
    and "0 < \<lceil>sh (draw_extent E m rect) / tileSize E m\<rceil>"
  shows "length (events st) < length (events (draw E m rect st))"
  using assms by (simp add: draw_def Let_def loop_i_step)

lemma draw_extent_empty:
  "sw (draw_extent E m rect) \<le> 0 \<or> sh (draw_extent E m rect) \<le> 0
    \<longleftrightarrow> rect_right rect \<le> px (draw_origin E m rect) \<or> rw (bounds E m) \<le> 0
      \<or> rect_bottom rect \<le> py (draw_origin E m rect) \<or> rh (bounds E m) \<le> 0"
  by (auto simp: draw_extent_def Let_def qMin_real_def)

subsection \<open>The world map at zoom 1\<close>

lemma world_map_north: "0 < py (ll2m osm (topLeft (geoBounds world_map)))"
  using north_lat by (intro mercator_north) (simp_all add: world_map_geoBounds)

lemma world_map_south: "py (ll2m osm (bottomRight (geoBounds world_map))) < 0"
  using south_lat by (intro mercator_south) (simp_all add: world_map_geoBounds)

lemma world_map_tileSize: "tileSize osm (load world_map) = 256"
  by (simp add: tileSize_def coordinatesRatio_def load_def world_map_deviceRatio osm_def)

lemma world_map_bounds:
  "rx (bounds osm (load world_map)) = - 256"
  "rw (bounds osm (load world_map)) = 512"
  "0 < rh (bounds osm (load world_map))"
proof -
  have s: "zoom2scale osm (zoom (load world_map)) = 45 / 64"
    by (simp add: osm_def load_def world_map_zoom)
  have r: "coordinatesRatio (load world_map) = 1"
    by (simp add: coordinatesRatio_def load_def world_map_deviceRatio)
  have g: "geoBounds (load world_map) = geoBounds world_map"
    by (simp add: load_def)
  have x: "px (ll2m osm c) = lon c" for c by (simp add: osm_def)
  show "rx (bounds osm (load world_map)) = - 256"
    by (simp add: bounds_def QRectF_corners_def ll2xy_def Let_def QPointF_div_def s r g x
        world_map_geoBounds)
  show "rw (bounds osm (load world_map)) = 512"
    by (simp add: bounds_def QRectF_corners_def ll2xy_def Let_def QPointF_div_def s r g x
        world_map_geoBounds)
  have "rh (bounds osm (load world_map))
      = (py (ll2m osm (topLeft (geoBounds world_map)))
          - py (ll2m osm (bottomRight (geoBounds world_map)))) * (64 / 45)"
    by (simp add: bounds_def QRectF_corners_def ll2xy_def Let_def QPointF_div_def s r g
        field_simps)
  then show "0 < rh (bounds osm (load world_map))"
    using world_map_north world_map_south by simp
qed

lemma digit_chars:
  "char_of (49::nat) = CHR ''1''" "char_of (52::nat) = CHR ''4''" "char_of (53::nat) = CHR ''5''"
  by code_simp+

lemma number_small: "number 1 = ''1''" "number 4 = ''4''" "number 5 = ''5''"
  by (simp_all add: number_def digit_chars)

lemma world_map_tile_absent:
  "tileData (load world_map) 1 \<lparr>ix = 4, iy = 1\<rparr> = []"
  "tileData (load world_map) 1 \<lparr>ix = 5, iy = 1\<rparr> = []"
  by (simp_all add: tileData_def load_def storageRow_def shl1_def world_map_def world_tiles_def
      construct_eval split: prod.splits)

lemma world_map_fileName: "fileName (load world_map) = ''world.mbtiles''"
  by (simp add: load_def world_map_def world_tiles_def construct_eval split: prod.splits)

text \<open>
  C4, as stated, fails: the projected bounds of the world map at zoom 1 span
  \<open>-256 .. 256\<close> horizontally, the viewport below starts at 1000, and \<open>draw\<close> still
  visits the two tiles (4, 1) and (5, 1), looking each up in the cache and fetching it.
\<close>

theorem draw_outside_counterexample:
  "viewport_outside \<lparr>rx = 1000, ry = 0, rw = 100, rh = 100\<rparr> (bounds osm (load world_map))
   \<and> events (draw osm (load world_map) \<lparr>rx = 1000, ry = 0, rw = 100, rh = 100\<rparr>
        \<lparr>cache = Map.empty, events = []\<rparr>)
     = [CacheFind ''world.mbtiles-1_4_1'', TileFetch 1 \<lparr>ix = 4, iy = 1\<rparr>,
        CacheFind ''world.mbtiles-1_5_1'', TileFetch 1 \<lparr>ix = 5, iy = 1\<rparr>]"
proof -
  let ?rect = "\<lparr>rx = 1000, ry = 0, rw = 100, rh = 100\<rparr>"
  let ?m = "load world_map"
  have o: "draw_origin osm ?m ?rect = \<lparr>px = 768, py = 0\<rparr>"
    by (simp add: draw_origin_def world_map_tileSize rect_left_def rect_top_def)
  have w: "sw (draw_extent osm ?m ?rect) = 332"
    by (simp add: draw_extent_def Let_def o rect_right_def world_map_bounds qMin_real_min)
  have h: "0 < sh (draw_extent osm ?m ?rect)" "sh (draw_extent osm ?m ?rect) \<le> 100"
    using world_map_bounds(3)
    by (simp_all add: draw_extent_def Let_def o rect_bottom_def qMin_real_min)
  have cw: "\<lceil>sw (draw_extent osm ?m ?rect) / tileSize osm ?m\<rceil> = 2"
    by (simp add: w world_map_tileSize ceiling_eq_iff)
  have ch: "\<lceil>sh (draw_extent osm ?m ?rect) / tileSize osm ?m\<rceil> = 1"
    using h by (simp add: world_map_tileSize ceiling_eq_iff)
  have z: "zoom ?m = 1" by (simp add: load_def world_map_zoom)
  have r: "coordinatesRatio ?m = 1"
    by (simp add: coordinatesRatio_def load_def world_map_deviceRatio)
  have t: "mercator2tile osm (QPointF_mul \<lparr>px = 1000 * zoom2scale osm 1, py = 0\<rparr> 1) 1
      = \<lparr>ix = 4, iy = 1\<rparr>"
    by (simp add: osm_def QPointF_mul_def floor_eq_iff)
  have l: "loadFromData osm [] = None" and e: "\<not> ENABLE_HIDPI osm"
    by (simp_all add: osm_def)
  have d: "draw osm ?m ?rect st = loop_i osm ?m \<lparr>ix = 4, iy = 1\<rparr> \<lparr>px = 768, py = 0\<rparr>
      (bounds osm ?m) (draw_extent osm ?m ?rect) 0 st" for st
    by (simp add: draw_def Let_def z r t o)
  have "events (draw osm ?m ?rect \<lparr>cache = Map.empty, events = []\<rparr>)
     = [CacheFind ''world.mbtiles-1_4_1'', TileFetch 1 \<lparr>ix = 4, iy = 1\<rparr>,
        CacheFind ''world.mbtiles-1_5_1'', TileFetch 1 \<lparr>ix = 5, iy = 1\<rparr>]"
    by (simp add: d loop_i_unroll loop_j_unroll loop_i_stop loop_j_stop cw ch
        draw_tile_def Let_def z world_map_fileName number_small world_map_tile_absent l e)
  moreover have "viewport_outside ?rect (bounds osm (load world_map))"
    by (simp add: viewport_outside_def rect_right_def rect_left_def world_map_bounds)
  ultimately show ?thesis by simp
qed

text \<open>
  C4, amended. With a positive tile size, \<open>draw\<close> visits no tile, and so looks nothing
  up, fetches nothing and draws nothing, exactly when the extent it iterates over is
  empty: the right edge of the viewport is not right of the tile-aligned origin, or its
  bottom edge is not below it, or the projected bounds have no positive width or no
  positive height. Where the viewport lies relative to the bounds plays no part.
\<close>

theorem draw_visits_nothing_iff:
  assumes "0 < tileSize E m"
  shows "(draw E m rect st = st)
      = (rect_right rect \<le> px (draw_origin E m rect) \<or> rw (bounds E m) \<le> 0
         \<or> rect_bottom rect \<le> py (draw_origin E m rect) \<or> rh (bounds E m) \<le> 0)
    \<and> (events (draw E m rect st) = events st)
      = (rect_right rect \<le> px (draw_origin E m rect) \<or> rw (bounds E m) \<le> 0
         \<or> rect_bottom rect \<le> py (draw_origin E m rect) \<or> rh (bounds E m) \<le> 0)"
proof -
  let ?s = "draw_extent E m rect"
  let ?c = "sw ?s \<le> 0 \<or> sh ?s \<le> 0"
  have w: "0 < \<lceil>sw ?s / tileSize E m\<rceil> \<longleftrightarrow> 0 < sw ?s"
    and h: "0 < \<lceil>sh ?s / tileSize E m\<rceil> \<longleftrightarrow> 0 < sh ?s"
    by (rule ceiling_quotient_pos [OF assms])+
  have 1: "draw E m rect st = st" if "?c"
  proof -
    have "\<lceil>sw ?s / tileSize E m\<rceil> \<le> 0 \<or> \<lceil>sh ?s / tileSize E m\<rceil> \<le> 0"
      using that w h by linarith
    then show ?thesis by (rule draw_skips)
  qed
  have 2: "length (events st) < length (events (draw E m rect st))" if "\<not> ?c"
  proof -
    have "0 < \<lceil>sw ?s / tileSize E m\<rceil>" and "0 < \<lceil>sh ?s / tileSize E m\<rceil>"
      using that w h by simp_all
    then show ?thesis by (rule draw_visits)
  qed
  have "(draw E m rect st = st) = ?c" and "(events (draw E m rect st) = events st) = ?c"
    using 1 2 by (cases ?c; auto)+
  then show ?thesis
    using draw_extent_empty [of E m rect] by simp
qed

theorem draw_visits_nothing_iff_witness:
  "0 < tileSize osm (load world_map)
   \<and> draw osm (load world_map) \<lparr>rx = 256, ry = 0, rw = 0, rh = 100\<rparr>
        \<lparr>cache = Map.empty, events = []\<rparr> = \<lparr>cache = Map.empty, events = []\<rparr>
   \<and> draw osm (load world_map) \<lparr>rx = 10, ry = 10, rw = 0, rh = 0\<rparr>
        \<lparr>cache = Map.empty, events = []\<rparr> \<noteq> \<lparr>cache = Map.empty, events = []\<rparr>"
proof -
  have t: "0 < tileSize osm (load world_map)" by (simp add: world_map_tileSize)
  have a: "draw_origin osm (load world_map) \<lparr>rx = 256, ry = 0, rw = 0, rh = 100\<rparr>
      = \<lparr>px = 256, py = 0\<rparr>"
    by (simp add: draw_origin_def world_map_tileSize rect_left_def rect_top_def)
  have b: "draw_origin osm (load world_map) \<lparr>rx = 10, ry = 10, rw = 0, rh = 0\<rparr>
      = \<lparr>px = 0, py = 0\<rparr>"
    by (simp add: draw_origin_def world_map_tileSize rect_left_def rect_top_def)
  show ?thesis
    using t world_map_bounds(3)
      draw_visits_nothing_iff [OF t, of "\<lparr>rx = 256, ry = 0, rw = 0, rh = 100\<rparr>"
        "\<lparr>cache = Map.empty, events = []\<rparr>"]
      draw_visits_nothing_iff [OF t, of "\<lparr>rx = 10, ry = 10, rw = 0, rh = 0\<rparr>"
        "\<lparr>cache = Map.empty, events = []\<rparr>"]
    by (simp add: a b rect_right_def rect_bottom_def world_map_bounds(1,2))
qed

end
